theory Spec2Isabelle
  imports Main "HOL-Library.Sublist"
begin

section \<open>Media tracker: article acquisition, date resolution, classification\<close>

text \<open>
  A shallow embedding of \<^verbatim>\<open>src/Article_extraction_with_pagination.py\<close>.
  Every function of the source that takes part in the date-resolution and routing logic
  is a HOL function of the same name. The third-party libraries the source calls
  (newspaper, requests, BeautifulSoup, dateparser, spaCy) and the clock are not code of
  the repository: they are the fields of the record \<open>libs\<close>, passed to every
  function that calls them, so each theorem holds for whatever these libraries return.
  A library call that stands inside a \<^verbatim>\<open>try\<close> block returns a sum, \<open>Inl\<close>
  being the exception the handler catches. A call outside every \<^verbatim>\<open>try\<close> block
  (the parsers of BeautifulSoup, \<^verbatim>\<open>dateparser.parse\<close>, \<^verbatim>\<open>search_dates\<close>, spaCy)
  is taken to return: the two date functions give \<^verbatim>\<open>None\<close> where they find no date.

  Strings are \<open>char list\<close>, a character being a code point from 0 to 255 (Latin-1).
  \<^verbatim>\<open>str.lower\<close>, \<^verbatim>\<open>str.strip\<close> and the regular expression class
  \<^verbatim>\<open>\d\<close> are what Python computes on these code points.
\<close>

subsection \<open>Python strings\<close>

definition is_digit :: "char \<Rightarrow> bool" where
  "is_digit c = (48 \<le> (of_char c :: nat) \<and> (of_char c :: nat) \<le> 57)"

definition digits :: "string \<Rightarrow> bool" where
  "digits s = list_all is_digit s"

definition digit_val :: "char \<Rightarrow> nat" where
  "digit_val c = of_char c - 48"

text \<open>\<^verbatim>\<open>int(s)\<close> on a string of decimal digits.\<close>

definition int_of_str :: "string \<Rightarrow> nat" where
  "int_of_str s = foldl (\<lambda>a c. 10 * a + digit_val c) 0 s"

text \<open>
  \<^verbatim>\<open>c.lower()\<close> for one code point below 256: the capitals A to Z (65 to 90) and
  the Latin-1 capitals 192 to 222, the multiplication sign 215 left out, move up by 32;
  every other code point below 256 is its own lower case.
\<close>

definition lower_char :: "char \<Rightarrow> char" where
  "lower_char c =
     (if (65 \<le> (of_char c :: nat) \<and> (of_char c :: nat) \<le> 90)
         \<or> (192 \<le> (of_char c :: nat) \<and> (of_char c :: nat) \<le> 222 \<and> (of_char c :: nat) \<noteq> 215)
      then char_of ((of_char c :: nat) + 32) else c)"

text \<open>\<^verbatim>\<open>s.lower()\<close>\<close>

definition lower :: "string \<Rightarrow> string" where
  "lower s = map lower_char s"

text \<open>
  \<^verbatim>\<open>c.isspace()\<close> for one code point below 256: 9 to 13, 28 to 32, the next-line
  control 133 and the no-break space 160.
\<close>

definition is_space :: "char \<Rightarrow> bool" where
  "is_space c = ((9 \<le> (of_char c :: nat) \<and> (of_char c :: nat) \<le> 13)
                 \<or> (28 \<le> (of_char c :: nat) \<and> (of_char c :: nat) \<le> 32)
                 \<or> (of_char c :: nat) = 133 \<or> (of_char c :: nat) = 160)"

text \<open>\<^verbatim>\<open>s.strip()\<close>\<close>

definition strip :: "string \<Rightarrow> string" where
  "strip s = rev (dropWhile is_space (rev (dropWhile is_space s)))"

text \<open>\<^verbatim>\<open>k in t\<close> for two strings: \<open>k\<close> occurs in \<open>t\<close> as a contiguous run.\<close>

fun str_in :: "string \<Rightarrow> string \<Rightarrow> bool" where
  "str_in k [] = (k = [])"
| "str_in k (c # cs) = (prefix k (c # cs) \<or> str_in k cs)"

text \<open>\<^verbatim>\<open>sep.join(xs)\<close>\<close>

fun join :: "string \<Rightarrow> string list \<Rightarrow> string" where
  "join sep [] = []"
| "join sep [x] = x"
| "join sep (x # y # ys) = x @ sep @ join sep (y # ys)"

text \<open>
  Truth value of an optional string, as \<^verbatim>\<open>if s:\<close> reads it: \<^verbatim>\<open>None\<close> and the
  empty string are false.
\<close>

definition truthy :: "string option \<Rightarrow> bool" where
  "truthy s = (case s of None \<Rightarrow> False | Some t \<Rightarrow> t \<noteq> [])"

text \<open>\<^verbatim>\<open>a or b\<close> on optional strings.\<close>

definition py_or :: "string option \<Rightarrow> string option \<Rightarrow> string option" where
  "py_or a b = (if truthy a then a else b)"

subsection \<open>Dates\<close>

text \<open>
  \<^verbatim>\<open>datetime.datetime\<close>: the wall-clock fields and \<^verbatim>\<open>tzinfo\<close>, which is
  \<open>None\<close> for a naive value and the UTC offset in minutes for an aware one.
\<close>

record datetime =
  year :: nat
  month :: nat
  day :: nat
  hour :: nat
  minute :: nat
  second :: nat
  microsecond :: nat
  tzinfo :: "int option"

text \<open>\<^verbatim>\<open>datetime.date\<close> as (year, month, day), compared lexicographically.\<close>

type_synonym date = "nat \<times> nat \<times> nat"

definition date_of :: "datetime \<Rightarrow> date" where
  "date_of d = (year d, month d, day d)"

fun date_le :: "date \<Rightarrow> date \<Rightarrow> bool" where
  "date_le (y1, m1, d1) (y2, m2, d2) =
     (y1 < y2 \<or> (y1 = y2 \<and> (m1 < m2 \<or> (m1 = m2 \<and> d1 \<le> d2))))"

text \<open>\<^verbatim>\<open>start <= d <= end\<close>\<close>

definition in_range :: "date \<Rightarrow> date \<Rightarrow> date \<Rightarrow> bool" where
  "in_range start_date end_date d = (date_le start_date d \<and> date_le d end_date)"

definition is_leap :: "nat \<Rightarrow> bool" where
  "is_leap y = (y mod 4 = 0 \<and> (y mod 100 \<noteq> 0 \<or> y mod 400 = 0))"

definition days_in_month :: "nat \<Rightarrow> nat \<Rightarrow> nat" where
  "days_in_month y m =
     (if m = 2 then (if is_leap y then 29 else 28)
      else if m = 4 \<or> m = 6 \<or> m = 9 \<or> m = 11 then 30 else 31)"

text \<open>Exceptions that a handler of the source catches.\<close>

datatype exn = ValueError | TypeError | RequestError | ParserError

text \<open>
  \<^verbatim>\<open>datetime.strptime(val, "%Y%m%d%H%M%S")\<close> at its only call site, where
  \<open>val\<close> has 14 characters: the year takes four digits and each other field at most
  two, so on 14 digits every field takes exactly two, and the call raises
  \<^verbatim>\<open>ValueError\<close> unless the six fields form a valid date and time.
\<close>

definition strptime_YmdHMS :: "string \<Rightarrow> exn + datetime" where
  "strptime_YmdHMS v =
     (if length v = 14 \<and> digits v then
        (let y = int_of_str (take 4 v);
             mo = int_of_str (take 2 (drop 4 v));
             d = int_of_str (take 2 (drop 6 v));
             h = int_of_str (take 2 (drop 8 v));
             mi = int_of_str (take 2 (drop 10 v));
             s = int_of_str (take 2 (drop 12 v))
         in if 1 \<le> y \<and> 1 \<le> mo \<and> mo \<le> 12 \<and> 1 \<le> d \<and> d \<le> days_in_month y mo
               \<and> h \<le> 23 \<and> mi \<le> 59 \<and> s \<le> 59
            then Inr \<lparr>year = y, month = mo, day = d, hour = h, minute = mi, second = s,
                      microsecond = 0, tzinfo = None\<rparr>
            else Inl ValueError)
      else Inl ValueError)"

text \<open>\<^verbatim>\<open>d.strftime('%Y-%m-%d')\<close>, the year on four digits as the Python documentation gives it.\<close>

fun pad :: "nat \<Rightarrow> string \<Rightarrow> string" where
  "pad n s = replicate (n - length s) (CHR ''0'') @ s"

fun str_of_nat :: "nat \<Rightarrow> string" where
  "str_of_nat n = (if n < 10 then [char_of (48 + n)] else str_of_nat (n div 10) @ [char_of (48 + n mod 10)])"

definition strftime_Ymd :: "datetime \<Rightarrow> string" where
  "strftime_Ymd d =
     pad 4 (str_of_nat (year d)) @ ''-'' @ pad 2 (str_of_nat (month d)) @ ''-'' @ pad 2 (str_of_nat (day d))"

text \<open>
  \<^verbatim>\<open>_make_naive(dt)\<close>: \<open>dt\<close> is a datetime or \<^verbatim>\<open>None\<close>; an aware datetime loses
  its \<^verbatim>\<open>tzinfo\<close> (\<^verbatim>\<open>dt.replace(tzinfo=None)\<close> keeps every other field), anything else
  is returned as it is.
\<close>

definition make_naive :: "datetime option \<Rightarrow> datetime option" where
  "make_naive dt =
     (case dt of
        Some d \<Rightarrow> (if tzinfo d \<noteq> None then Some (d\<lparr>tzinfo := None\<rparr>) else Some d)
      | None \<Rightarrow> None)"

subsection \<open>The libraries\<close>

text \<open>What \<^verbatim>\<open>newspaper.Article\<close> holds after download, parse and nlp.\<close>

record article =
  art_text :: string
  art_summary :: string
  art_html :: string
  art_publish_date :: "datetime option"

text \<open>A \<^verbatim>\<open>meta\<close> tag as BeautifulSoup gives it: its attributes, name to value.\<close>

type_synonym meta_tag = "(string \<times> string) list"

text \<open>
  \<^item> \<open>newspaper_Article url\<close>: \<^verbatim>\<open>Article(url)\<close> after \<^verbatim>\<open>download()\<close>,
    \<^verbatim>\<open>parse()\<close> and \<^verbatim>\<open>nlp()\<close>, or the exception one of them raised;
  \<^item> \<open>requests_get url\<close>: the body of \<^verbatim>\<open>requests.get(url, ...)\<close> after
    \<^verbatim>\<open>raise_for_status()\<close>, or the exception;
  \<^item> \<open>soup_p_texts html\<close>: \<^verbatim>\<open>get_text(strip=True)\<close> of every \<^verbatim>\<open>p\<close> element of
    the parsed document, in document order;
  \<^item> \<open>soup_meta html\<close>: the \<^verbatim>\<open>meta\<close> elements of the parsed document, in
    document order;
  \<^item> \<open>dateparser_parse s\<close>: \<^verbatim>\<open>dateparser.parse(s)\<close>, a datetime or \<^verbatim>\<open>None\<close>;
  \<^item> \<open>search_dates langs text\<close>: \<^verbatim>\<open>dateparser.search.search_dates\<close> with
    \<^verbatim>\<open>PREFER_DATES_FROM = past\<close> and the given \<^verbatim>\<open>languages\<close> argument, a list of
    (phrase, datetime) or \<^verbatim>\<open>None\<close>;
  \<^item> \<open>datetime_now\<close>: \<^verbatim>\<open>datetime.now()\<close>;
  \<^item> \<open>nlp_ents text\<close>: (\<^verbatim>\<open>ent.text\<close>, \<^verbatim>\<open>ent.label_\<close>) for the entities of
    \<^verbatim>\<open>nlp(text).ents\<close>;
  \<^item> \<open>bing_page query offset\<close>: for the result page requested with
    \<^verbatim>\<open>q=query&first=offset\<close>, (\<^verbatim>\<open>get_text(strip=True)\<close>, \<^verbatim>\<open>get("href")\<close>) of
    every element that \<^verbatim>\<open>select("a.title")\<close> finds, or the exception raised by the
    request or the parser.
\<close>

record libs =
  newspaper_Article :: "string \<Rightarrow> exn + article"
  requests_get :: "string \<Rightarrow> exn + string"
  soup_p_texts :: "string \<Rightarrow> string list"
  soup_meta :: "string \<Rightarrow> meta_tag list"
  dateparser_parse :: "string \<Rightarrow> datetime option"
  search_dates :: "string list option \<Rightarrow> string \<Rightarrow> (string \<times> datetime) list option"
  datetime_now :: datetime
  nlp_ents :: "string \<Rightarrow> (string \<times> string) list"
  bing_page :: "string \<Rightarrow> nat \<Rightarrow> exn + (string \<times> string option) list"

subsection \<open>Date from the URL\<close>

text \<open>
  \<^verbatim>\<open>re.search(r'(\d{4}[-/]\d{2}[-/]\d{2})|(\d{8})|(\d{14})', url)\<close>.
  The search tries each start position from the left, and at one position the three
  alternatives in the order written; the first that matches is the match. A group that
  took no part in the match is \<^verbatim>\<open>None\<close>.
\<close>

definition is_sep :: "char \<Rightarrow> bool" where
  "is_sep c = (c = CHR ''-'' \<or> c = CHR ''/'')"

definition alt_dashed :: "string \<Rightarrow> string option" where
  "alt_dashed s =
     (if 10 \<le> length s \<and> digits (take 4 s) \<and> is_sep (s ! 4) \<and> digits (take 2 (drop 5 s))
         \<and> is_sep (s ! 7) \<and> digits (take 2 (drop 8 s))
      then Some (take 10 s) else None)"

definition alt_digits :: "nat \<Rightarrow> string \<Rightarrow> string option" where
  "alt_digits n s = (if n \<le> length s \<and> digits (take n s) then Some (take n s) else None)"

record re_match =
  group1 :: "string option"
  group2 :: "string option"
  group3 :: "string option"

definition match_at :: "string \<Rightarrow> re_match option" where
  "match_at s =
     (case alt_dashed s of
        Some v \<Rightarrow> Some \<lparr>group1 = Some v, group2 = None, group3 = None\<rparr>
      | None \<Rightarrow>
          (case alt_digits 8 s of
             Some v \<Rightarrow> Some \<lparr>group1 = None, group2 = Some v, group3 = None\<rparr>
           | None \<Rightarrow>
               (case alt_digits 14 s of
                  Some v \<Rightarrow> Some \<lparr>group1 = None, group2 = None, group3 = Some v\<rparr>
                | None \<Rightarrow> None)))"

fun re_search :: "string \<Rightarrow> re_match option" where
  "re_search [] = match_at []"
| "re_search (c # cs) = (case match_at (c # cs) of Some m \<Rightarrow> Some m | None \<Rightarrow> re_search cs)"

text \<open>
  \<^verbatim>\<open>extract_date_from_url(url)\<close>. The bare \<^verbatim>\<open>except\<close> turns every exception of
  the \<^verbatim>\<open>try\<close> block into \<^verbatim>\<open>None\<close>.
\<close>

definition extract_date_from_url :: "libs \<Rightarrow> string \<Rightarrow> datetime option" where
  "extract_date_from_url L url =
     (case re_search url of
        Some m \<Rightarrow>
          (case py_or (group1 m) (py_or (group2 m) (group3 m)) of
             None \<Rightarrow> None
           | Some val \<Rightarrow>
               if length val = 14 then
                 (case strptime_YmdHMS val of
                    Inl e \<Rightarrow> None
                  | Inr d \<Rightarrow> make_naive (Some d))
               else make_naive (dateparser_parse L val))
      | None \<Rightarrow> None)"

subsection \<open>Date from the document metadata\<close>

definition meta_props :: "string list" where
  "meta_props =
     [''article:published_time'', ''og:published_time'', ''datePublished'',
      ''publish_date'', ''pubdate'', ''publishdate'', ''date'', ''article:published'',
      ''parsely-pub-date'', ''dc.date'', ''dc.date.issued'', ''date'']"

text \<open>\<^verbatim>\<open>soup.find("meta", attrs={attr: v})\<close>: the first tag, in document order, whose
  attribute \<open>attr\<close> is \<open>v\<close>.\<close>

definition soup_find :: "meta_tag list \<Rightarrow> string \<Rightarrow> string \<Rightarrow> meta_tag option" where
  "soup_find tags attr v = find (\<lambda>t. map_of t attr = Some v) tags"

text \<open>
  \<^verbatim>\<open>soup.find(.. property ..) or soup.find(.. name ..) or soup.find(.. itemprop ..)\<close>:
  a tag is always true, so the first lookup that finds a tag gives the result.
\<close>

definition find_meta :: "meta_tag list \<Rightarrow> string \<Rightarrow> meta_tag option" where
  "find_meta tags prop =
     (case soup_find tags ''property'' prop of
        Some t \<Rightarrow> Some t
      | None \<Rightarrow>
          (case soup_find tags ''name'' prop of
             Some t \<Rightarrow> Some t
           | None \<Rightarrow> soup_find tags ''itemprop'' prop))"

text \<open>The loop over \<^verbatim>\<open>meta_props\<close>.\<close>

fun meta_loop :: "libs \<Rightarrow> meta_tag list \<Rightarrow> string list \<Rightarrow> datetime option" where
  "meta_loop L tags [] = None"
| "meta_loop L tags (prop # props) =
     (case find_meta tags prop of
        Some tag \<Rightarrow>
          (case map_of tag ''content'' of
             Some content \<Rightarrow>
               if content \<noteq> [] then
                 (case dateparser_parse L content of
                    Some date_obj \<Rightarrow> make_naive (Some date_obj)
                  | None \<Rightarrow> meta_loop L tags props)
               else meta_loop L tags props
           | None \<Rightarrow> meta_loop L tags props)
      | None \<Rightarrow> meta_loop L tags props)"

definition extract_date_from_meta :: "libs \<Rightarrow> string \<Rightarrow> datetime option" where
  "extract_date_from_meta L html = meta_loop L (soup_meta L html) meta_props"

subsection \<open>Date from free text\<close>

text \<open>The loop over the candidates of \<^verbatim>\<open>search_dates\<close>; \<open>now\<close> is read once, before it.\<close>

fun candidate_loop :: "datetime \<Rightarrow> (string \<times> datetime) list \<Rightarrow> datetime option" where
  "candidate_loop now [] = None"
| "candidate_loop now ((phrase, date_obj) # rest) =
     (case make_naive (Some date_obj) of
        Some d \<Rightarrow>
          if 2000 \<le> year d \<and> date_le (date_of d) (date_of now) then Some d
          else candidate_loop now rest
      | None \<Rightarrow> candidate_loop now rest)"

definition extract_date_from_text :: "libs \<Rightarrow> string option \<Rightarrow> datetime option" where
  "extract_date_from_text L text =
     (case text of
        None \<Rightarrow> None
      | Some t \<Rightarrow>
          if t = [] then None
          else
            (case search_dates L (Some [''en'']) t of
               None \<Rightarrow> None
             | Some dates \<Rightarrow>
                 if dates \<noteq> [] then candidate_loop (datetime_now L) dates else None))"

subsection \<open>The article fetcher\<close>

text \<open>
  The two retrieval paths of \<^verbatim>\<open>fetch_full_text_and_summary\<close>: the values of
  (\<^verbatim>\<open>full_text\<close>, \<^verbatim>\<open>pub_date\<close>, \<^verbatim>\<open>summary\<close>, \<^verbatim>\<open>html\<close>) after the outer
  \<^verbatim>\<open>try\<close>, or \<open>None\<close> when the inner handler returns from the function. On the
  primary path the four assignments follow the last call that can raise, so an exception
  leaves all four \<^verbatim>\<open>None\<close>.
\<close>

definition retrieve ::
  "libs \<Rightarrow> string \<Rightarrow> (string option \<times> datetime option \<times> string option \<times> string option) option"
where
  "retrieve L url =
     (case newspaper_Article L url of
        Inr a \<Rightarrow>
          Some (Some (strip (art_text a)), make_naive (art_publish_date a),
                Some (art_summary a), Some (art_html a))
      | Inl e \<Rightarrow>
          (case requests_get L url of
             Inr html \<Rightarrow>
               Some (Some (join [CHR 0x0A] (filter (\<lambda>t. t \<noteq> []) (soup_p_texts L html))),
                     None, None, Some html)
           | Inl e' \<Rightarrow> None))"

definition fetch_full_text_and_summary ::
  "libs \<Rightarrow> string \<Rightarrow> string option \<times> datetime option \<times> string option"
where
  "fetch_full_text_and_summary L url =
     (case retrieve L url of
        None \<Rightarrow> (None, None, None)
      | Some (full_text, pub_date0, summary, html) \<Rightarrow>
          (let pub_date1 =
                 (if pub_date0 = None \<and> truthy html
                  then extract_date_from_meta L (case html of Some h \<Rightarrow> h | None \<Rightarrow> [])
                  else pub_date0);
               pub_date2 =
                 (if pub_date1 = None \<and> truthy full_text
                  then extract_date_from_text L full_text
                  else pub_date1);
               pub_date3 =
                 (if pub_date2 = None then extract_date_from_url L url else pub_date2)
           in (full_text, pub_date3, summary)))"

subsection \<open>Classification, entities, event date\<close>

definition CATEGORY_KEYWORDS :: "(string \<times> string list) list" where
  "CATEGORY_KEYWORDS =
     [(''Press Release'', [''press release'', ''announced'', ''unveiled'', ''launched'']),
      (''Jury'', [''jury'', ''judge'', ''jury member'', ''jury panel'', ''jury appointment'']),
      (''Interviews'',
         [''interview with'', ''exclusive interview'', ''spoke to'', ''conversation with'']),
      (''Speaking Opportunity'',
         [''keynote'', ''fireside chat'', ''panel discussion'', ''session speaker'', ''speaker at'']),
      (''Article Commentary'',
         [''quoted'', ''commented'', ''shared'', ''according to'', ''said'', ''opinion'']),
      (''Brief Mentions'',
         [''congratulations'', ''appointed'', ''wins'', ''promotion'', ''award'', ''linkedin update''])]"

text \<open>The inner loop: true when it reaches \<^verbatim>\<open>return category\<close>.\<close>

fun keyword_loop :: "string \<Rightarrow> string list \<Rightarrow> bool" where
  "keyword_loop text [] = False"
| "keyword_loop text (keyword # keywords) =
     (if str_in keyword text then True else keyword_loop text keywords)"

fun category_loop :: "string \<Rightarrow> (string \<times> string list) list \<Rightarrow> string" where
  "category_loop text [] = ''Brief Mentions''"
| "category_loop text ((category, keywords) # rest) =
     (if keyword_loop text keywords then category else category_loop text rest)"

definition categorize_article :: "string option \<Rightarrow> string" where
  "categorize_article text =
     category_loop (lower (case text of None \<Rightarrow> [] | Some t \<Rightarrow> t)) CATEGORY_KEYWORDS"

definition extract_named_entities :: "libs \<Rightarrow> string option \<Rightarrow> string list" where
  "extract_named_entities L text =
     (case text of
        None \<Rightarrow> []
      | Some t \<Rightarrow>
          if t = [] then []
          else map fst (filter (\<lambda>(_, label). label = ''PERSON'' \<or> label = ''ORG'' \<or> label = ''GPE'')
                               (nlp_ents L t)))"

definition extract_event_date :: "libs \<Rightarrow> string \<Rightarrow> string" where
  "extract_event_date L text =
     (case search_dates L None text of
        None \<Rightarrow> ''Not Mentioned''
      | Some [] \<Rightarrow> ''Not Mentioned''
      | Some ((phrase, d) # rest) \<Rightarrow> strftime_Ymd d)"

definition contains_keywords :: "string option \<Rightarrow> string list \<Rightarrow> bool" where
  "contains_keywords text keywords =
     list_ex (\<lambda>k. str_in (lower k) (lower (case text of None \<Rightarrow> [] | Some t \<Rightarrow> t))) keywords"

subsection \<open>The search provider\<close>

record hit =
  hit_title :: string
  hit_url :: string

text \<open>The loop over the result elements of one page.\<close>

fun item_loop ::
  "(string \<times> string option) list \<Rightarrow> string set \<times> hit list \<Rightarrow> string set \<times> hit list"
where
  "item_loop [] st = st"
| "item_loop ((title, href) # items) (seen_urls, all_results) =
     (case href of
        Some url \<Rightarrow>
          if url \<noteq> [] \<and> url \<notin> seen_urls
          then item_loop items
                 (insert url seen_urls, all_results @ [\<lparr>hit_title = title, hit_url = url\<rparr>])
          else item_loop items (seen_urls, all_results)
      | None \<Rightarrow> item_loop items (seen_urls, all_results))"

text \<open>
  The \<^verbatim>\<open>while page < max_pages\<close> loop. An exception of the \<^verbatim>\<open>try\<close> block and an
  empty page both \<^verbatim>\<open>break\<close>. The random User-Agent and the sleep between pages do not
  enter the result.
\<close>

function search_loop ::
  "libs \<Rightarrow> string \<Rightarrow> int \<Rightarrow> nat \<Rightarrow> string set \<Rightarrow> hit list \<Rightarrow> hit list"
where
  "search_loop L query max_pages page seen_urls all_results =
     (if int page < max_pages then
        (case bing_page L query (page * 10) of
           Inl e \<Rightarrow> all_results
         | Inr items \<Rightarrow>
             if items = [] then all_results
             else search_loop L query max_pages (page + 1)
                    (fst (item_loop items (seen_urls, all_results)))
                    (snd (item_loop items (seen_urls, all_results))))
      else all_results)"
  by pat_completeness auto
termination
  by (relation "measure (\<lambda>(L, query, max_pages, page, seen_urls, all_results). nat (max_pages - int page))") auto

definition search_urls_bing_news :: "libs \<Rightarrow> string \<Rightarrow> int \<Rightarrow> hit list" where
  "search_urls_bing_news L query max_pages = search_loop L query max_pages 0 {} []"

subsection \<open>The tracker\<close>

record tracked_article =
  Title :: string
  URL :: string
  Published_Date :: string
  Event_Date :: string
  Leader_Mentioned :: string
  Category :: string
  Named_Entities :: string
  Summary :: string

record failed_article =
  failed_Title :: string
  failed_URL :: string
  failed_Published_Date :: string

record tracker_state =
  final_data :: "tracked_article list"
  failed_articles :: "failed_article list"

text \<open>\<^verbatim>\<open>d and not (start_date <= d.date() <= end_date)\<close>; a datetime is always true.\<close>

definition out_of_range :: "date \<Rightarrow> date \<Rightarrow> datetime option \<Rightarrow> bool" where
  "out_of_range start_date end_date dt =
     (case dt of None \<Rightarrow> False | Some d \<Rightarrow> \<not> in_range start_date end_date (date_of d))"

text \<open>The row appended to \<^verbatim>\<open>final_data\<close>; \<open>full_text\<close> is a non-empty string there.\<close>

definition tracked_row ::
  "libs \<Rightarrow> string list \<Rightarrow> string \<Rightarrow> string \<Rightarrow> string \<Rightarrow> datetime option \<Rightarrow> string option
     \<Rightarrow> tracked_article"
where
  "tracked_row L leaders title url full_text pub_date summary =
     \<lparr>Title = title,
      URL = url,
      Published_Date = (case pub_date of Some d \<Rightarrow> strftime_Ymd d | None \<Rightarrow> ''Unknown''),
      Event_Date = extract_event_date L full_text,
      Leader_Mentioned =
        (let s = join '', '' (filter (\<lambda>l. str_in (lower l) (lower full_text)) leaders)
         in if s \<noteq> [] then s else ''Not Mentioned''),
      Category = categorize_article (Some full_text),
      Named_Entities = join '', '' (extract_named_entities L (Some full_text)),
      Summary =
        (if full_text \<noteq> [] then
           (case summary of
              Some s \<Rightarrow> if s \<noteq> [] then s else take 500 full_text @ ''...''
            | None \<Rightarrow> take 500 full_text @ ''...'')
         else ''No summary available.'')\<rparr>"

text \<open>The row appended to \<^verbatim>\<open>failed_articles\<close>; \<^verbatim>\<open>final_date = pub_date or pub_date_from_url\<close>.\<close>

definition failed_row ::
  "string \<Rightarrow> string \<Rightarrow> datetime option \<Rightarrow> datetime option \<Rightarrow> failed_article"
where
  "failed_row title url pub_date pub_date_from_url =
     \<lparr>failed_Title = title,
      failed_URL = url,
      failed_Published_Date =
        (case (case pub_date of Some d \<Rightarrow> Some d | None \<Rightarrow> pub_date_from_url) of
           Some final_date \<Rightarrow> strftime_Ymd final_date
         | None \<Rightarrow> ''Unknown'')\<rparr>"

text \<open>The body of the loop over the search results of one keyword.\<close>

definition tracker_step ::
  "libs \<Rightarrow> string list \<Rightarrow> string list \<Rightarrow> date \<Rightarrow> date \<Rightarrow> hit \<Rightarrow> tracker_state \<Rightarrow> tracker_state"
where
  "tracker_step L all_keywords leaders start_date end_date result st =
     (let url = hit_url result;
          title = hit_title result;
          pub_date_from_url = extract_date_from_url L url;
          fetched = fetch_full_text_and_summary L url;
          full_text = fst fetched;
          pub_date = fst (snd fetched);
          summary = snd (snd fetched)
      in if out_of_range start_date end_date pub_date_from_url then st
         else if out_of_range start_date end_date pub_date then st
         else if truthy full_text \<and> contains_keywords full_text all_keywords then
           st\<lparr>final_data := final_data st @
                [tracked_row L leaders title url (case full_text of Some t \<Rightarrow> t | None \<Rightarrow> [])
                   pub_date summary]\<rparr>
         else
           st\<lparr>failed_articles := failed_articles st @
                [failed_row title url pub_date pub_date_from_url]\<rparr>)"

text \<open>
  \<^verbatim>\<open>run_tracker\<close>. \<^verbatim>\<open>list(set(keywords + leaders))\<close> has the elements of both lists
  once each, in an order Python leaves open; it is only read by
  \<^verbatim>\<open>contains_keywords\<close>, whose result does not depend on the order. The search runs
  with its default \<^verbatim>\<open>max_pages=5\<close>. The result is the pair of row lists the two data
  frames are built from.
\<close>

definition run_tracker ::
  "libs \<Rightarrow> string list \<Rightarrow> string list \<Rightarrow> date \<Rightarrow> date \<Rightarrow> tracker_state"
where
  "run_tracker L keywords leaders start_date end_date =
     (let all_keywords = remdups (keywords @ leaders)
      in foldl
           (\<lambda>st keyword.
              foldl (\<lambda>st' result. tracker_step L all_keywords leaders start_date end_date result st')
                st (search_urls_bing_news L keyword 5))
           \<lparr>final_data = [], failed_articles = []\<rparr>
           keywords)"

subsection \<open>Notions the statements below use\<close>

text \<open>The first present value of a priority chain.\<close>

fun first_present :: "'a option list \<Rightarrow> 'a option" where
  "first_present [] = None"
| "first_present (None # xs) = first_present xs"
| "first_present (Some x # xs) = Some x"

text \<open>
  The metadata values of a document in scan order: for each property name of
  \<open>meta_props\<close> that has a tag, the \<^verbatim>\<open>content\<close> of that tag when it has one.
\<close>

definition meta_values :: "meta_tag list \<Rightarrow> string list" where
  "meta_values tags =
     List.map_filter
       (\<lambda>prop. case find_meta tags prop of Some tag \<Rightarrow> map_of tag ''content'' | None \<Rightarrow> None)
       meta_props"

text \<open>
  Metadata extraction read as "parse the first non-empty value found into a date and
  normalize it to naive".
\<close>

definition first_nonempty_meta_date :: "libs \<Rightarrow> string \<Rightarrow> datetime option" where
  "first_nonempty_meta_date L html =
     (case find (\<lambda>v. v \<noteq> []) (meta_values (soup_meta L html)) of
        Some v \<Rightarrow> make_naive (dateparser_parse L v)
      | None \<Rightarrow> None)"

text \<open>A candidate of the free-text search is acceptable: year at least 2000, not after today.\<close>

definition acceptable :: "datetime \<Rightarrow> datetime \<Rightarrow> bool" where
  "acceptable now d = (2000 \<le> year d \<and> date_le (date_of d) (date_of now))"

text \<open>The date-range filter of the tracker rejects the hit.\<close>

definition date_rejected :: "libs \<Rightarrow> date \<Rightarrow> date \<Rightarrow> hit \<Rightarrow> bool" where
  "date_rejected L start_date end_date result =
     (out_of_range start_date end_date (extract_date_from_url L (hit_url result))
      \<or> out_of_range start_date end_date
           (fst (snd (fetch_full_text_and_summary L (hit_url result)))))"

text \<open>The number of rows of the two output tables.\<close>

definition row_count :: "tracker_state \<Rightarrow> nat" where
  "row_count st = length (final_data st) + length (failed_articles st)"

text \<open>The hits one run processes: the search results of every keyword, in keyword order.\<close>

definition hits_processed :: "libs \<Rightarrow> string list \<Rightarrow> hit list" where
  "hits_processed L keywords = concat (map (\<lambda>keyword. search_urls_bing_news L keyword 5) keywords)"

text \<open>The result elements of a page that carry a non-empty link.\<close>

definition linked :: "(string \<times> string option) list \<Rightarrow> (string \<times> string) list" where
  "linked items =
     List.map_filter
       (\<lambda>(title, href). case href of Some url \<Rightarrow> if url \<noteq> [] then Some (title, url) else None
                                     | None \<Rightarrow> None)
       items"

text \<open>The result elements of pages \<open>0 .. n - 1\<close> of a query, in page-then-position order.\<close>

definition page_items :: "libs \<Rightarrow> string \<Rightarrow> nat \<Rightarrow> (string \<times> string option) list" where
  "page_items L query n =
     concat (map (\<lambda>p. case bing_page L query (p * 10) of Inr items \<Rightarrow> items | Inl e \<Rightarrow> []) [0..<n])"

text \<open>Page \<open>p\<close> of a query stops the pagination: the request fails or the page is empty.\<close>

definition page_stops :: "libs \<Rightarrow> string \<Rightarrow> nat \<Rightarrow> bool" where
  "page_stops L query p =
     (case bing_page L query (p * 10) of Inl e \<Rightarrow> True | Inr items \<Rightarrow> items = [])"

text \<open>
  The page at which the pagination of a query stops: the first page below the bound that
  stops it, or the bound when there is none (no page when the bound is not positive).
\<close>

definition stop_page :: "libs \<Rightarrow> string \<Rightarrow> int \<Rightarrow> nat" where
  "stop_page L query max_pages =
     (case find (page_stops L query) [0..<nat max_pages] of Some p \<Rightarrow> p | None \<Rightarrow> nat max_pages)"

subsection \<open>A concrete world\<close>

text \<open>
  One fixed answer of every library, on which the theorems are evaluated: four articles,
  a search with a repeated link and an empty third page, and a parser that reads three
  date strings.
\<close>

definition mk_date :: "nat \<Rightarrow> nat \<Rightarrow> nat \<Rightarrow> datetime" where
  "mk_date y m d =
     \<lparr>year = y, month = m, day = d, hour = 0, minute = 0, second = 0, microsecond = 0,
      tzinfo = None\<rparr>"

definition url_a :: string where "url_a = ''https://news.example/2024/03/01/acme-jane''"
definition url_b :: string where "url_b = ''https://news.example/2023-11-05/old-story''"
definition url_c :: string where "url_c = ''https://blog.example/empty''"
definition url_d :: string where "url_d = ''https://news.example/meta''"

definition demo_parse :: "string \<Rightarrow> datetime option" where
  "demo_parse s =
     (if s = ''2024/03/01'' then Some (mk_date 2024 3 1)
      else if s = ''2023-11-05'' then Some (mk_date 2023 11 5)
      else if s = ''2024-02-10T10:00:00+05:30''
        then Some ((mk_date 2024 2 10)\<lparr>hour := 10, tzinfo := Some 330\<rparr>)
      else None)"

definition article_a :: article where
  "article_a =
     \<lparr>art_text = '' Jane Doe was quoted on Acme Corp. '', art_summary = [],
      art_html = ''<html>a</html>'',
      art_publish_date = Some ((mk_date 2024 3 1)\<lparr>tzinfo := Some 330\<rparr>)\<rparr>"

definition demo_article :: "string \<Rightarrow> exn + article" where
  "demo_article url = (if url = url_a then Inr article_a else Inl RequestError)"

definition demo_get :: "string \<Rightarrow> exn + string" where
  "demo_get url =
     (if url = url_c then Inr ''<html>c</html>''
      else if url = url_d then Inr ''<html>d</html>''
      else Inl RequestError)"

definition demo_meta :: "string \<Rightarrow> meta_tag list" where
  "demo_meta html =
     (if html = ''<html>d</html>''
      then [[(''property'', ''article:published_time''), (''content'', ''soon'')],
            [(''name'', ''date''), (''content'', ''2024-02-10T10:00:00+05:30'')]]
      else [])"

definition demo_p_texts :: "string \<Rightarrow> string list" where
  "demo_p_texts html = (if html = ''<html>d</html>'' then [''Weather.'', [], ''Rain.''] else [])"

definition demo_search_dates ::
  "string list option \<Rightarrow> string \<Rightarrow> (string \<times> datetime) list option"
where
  "demo_search_dates langs text =
     (if text = ''From 1999 to 2031 via 5 Nov 2023''
      then Some [(''1999'', mk_date 1999 6 1), (''2031'', mk_date 2031 6 1),
                 (''5 Nov 2023'', (mk_date 2023 11 5)\<lparr>tzinfo := Some 0\<rparr>)]
      else if text = ''Since 1999'' then Some [(''1999'', mk_date 1999 6 1)]
      else None)"

definition demo_bing :: "string \<Rightarrow> nat \<Rightarrow> exn + (string \<times> string option) list" where
  "demo_bing query offset =
     (if query = ''acme'' then
        (if offset = 0
           then Inr [(''Acme and Jane'', Some url_a), (''Old story'', Some url_b),
                     (''No link'', None), (''Acme again'', Some url_a)]
         else if offset = 10
           then Inr [(''Empty page'', Some url_c), (''Old again'', Some url_b)]
         else if offset = 20 then Inr []
         else Inr [(''Never reached'', Some url_d)])
      else Inl RequestError)"

definition demo_libs :: libs where
  "demo_libs =
     \<lparr>newspaper_Article = demo_article,
      requests_get = demo_get,
      soup_p_texts = demo_p_texts,
      soup_meta = demo_meta,
      dateparser_parse = demo_parse,
      search_dates = demo_search_dates,
      datetime_now = mk_date 2024 6 1,
      nlp_ents = (\<lambda>text. []),
      bing_page = demo_bing\<rparr>"

definition empty_state :: tracker_state where
  "empty_state = \<lparr>final_data = [], failed_articles = []\<rparr>"

section \<open>Properties\<close>

subsection \<open>Strings and dates\<close>

lemma str_in_sublist: "str_in k t = sublist k t"
  by (induction t) (simp_all add: sublist_Cons_right)

lemma make_naive_Some: "make_naive (Some d) = Some (d\<lparr>tzinfo := None\<rparr>)"
  by (simp add: make_naive_def)

subsection \<open>Classification\<close>

lemma keyword_loop_ex: "keyword_loop text ks = (\<exists>k \<in> set ks. sublist k text)"
  by (induction ks) (simp_all add: str_in_sublist)

lemma category_loop_find:
  "category_loop text cs =
     (case find (\<lambda>(category, keywords). \<exists>k \<in> set keywords. sublist k text) cs of
        Some (category, keywords) \<Rightarrow> category
      | None \<Rightarrow> ''Brief Mentions'')"
  by (induction cs) (auto simp: keyword_loop_ex)

lemma category_loop_mem:
  "category_loop text cs \<in> fst ` set cs \<union> {''Brief Mentions''}"
  by (induction cs) force+

lemma brief_in_taxonomy: "''Brief Mentions'' \<in> fst ` set CATEGORY_KEYWORDS"
  by (simp add: CATEGORY_KEYWORDS_def)

lemma categorize_hello_world: "categorize_article (Some ''hello world'') = ''Brief Mentions''"
  by code_simp

text \<open>
  Claim C7. For every text (also an absent one), \<open>categorize_article\<close> returns the first
  category, in the declared order of the taxonomy, one of whose trigger phrases occurs in
  the lower-cased text, and \<open>Brief Mentions\<close> when there is none; the result is always a
  category of the taxonomy; \<open>Brief Mentions\<close> is the category declared last; and the
  text \<open>hello world\<close> is classified as \<open>Brief Mentions\<close>. The function is total: it is
  defined by structural recursion over the taxonomy and has no failing branch.
\<close>

theorem categorize_article_first_match:
  "categorize_article text =
     (case find (\<lambda>(category, keywords).
                  \<exists>k \<in> set keywords. sublist k (lower (case text of None \<Rightarrow> [] | Some t \<Rightarrow> t)))
             CATEGORY_KEYWORDS of
        Some (category, keywords) \<Rightarrow> category
      | None \<Rightarrow> ''Brief Mentions'')
   \<and> categorize_article text \<in> fst ` set CATEGORY_KEYWORDS
   \<and> fst (last CATEGORY_KEYWORDS) = ''Brief Mentions''
   \<and> categorize_article (Some ''hello world'') = ''Brief Mentions''"
proof -
  have "categorize_article text \<in> fst ` set CATEGORY_KEYWORDS"
    using category_loop_mem [of "lower (case text of None \<Rightarrow> [] | Some t \<Rightarrow> t)" CATEGORY_KEYWORDS]
      brief_in_taxonomy
    unfolding categorize_article_def by (metis Un_iff singletonD)
  moreover have "fst (last CATEGORY_KEYWORDS) = ''Brief Mentions''"
    by (simp add: CATEGORY_KEYWORDS_def)
  moreover have "categorize_article text =
     (case find (\<lambda>(category, keywords).
                  \<exists>k \<in> set keywords. sublist k (lower (case text of None \<Rightarrow> [] | Some t \<Rightarrow> t)))
             CATEGORY_KEYWORDS of
        Some (category, keywords) \<Rightarrow> category
      | None \<Rightarrow> ''Brief Mentions'')"
    unfolding categorize_article_def by (rule category_loop_find)
  ultimately show ?thesis
    using categorize_hello_world by blast
qed

theorem categorize_article_first_match_witness:
  "categorize_article (Some ''The Judge announced'') \<in> fst ` set CATEGORY_KEYWORDS
   \<and> categorize_article (Some ''hello world'') = ''Brief Mentions''"
  using categorize_article_first_match [of "Some ''The Judge announced''"] by blast

subsection \<open>Date from free text\<close>

lemma candidate_loop_find:
  "candidate_loop now dates =
     map_option (\<lambda>d. d\<lparr>tzinfo := None\<rparr>) (find (acceptable now) (map snd dates))"
  by (induction dates) (auto simp: make_naive_Some acceptable_def date_of_def)

lemma candidate_loop_acceptable:
  "candidate_loop now dates = Some d \<Longrightarrow> acceptable now d"
  by (induction dates) (auto simp: make_naive_Some acceptable_def date_of_def split: if_splits)

text \<open>
  Claim C5. For every text, \<open>extract_date_from_text\<close> returns the first candidate of the
  English, past-preferring \<open>search_dates\<close> whose year is at least 2000 and whose calendar
  date is not after today, with its time zone dropped; whatever it returns has a year of
  at least 2000 and a date not after today; and when the search gives candidates none of
  which is acceptable, the result is absent. An absent or empty text, and a search with
  no result, give an absent date too.
\<close>

theorem extract_date_from_text_first_acceptable:
  "extract_date_from_text L text =
     (case text of
        None \<Rightarrow> None
      | Some t \<Rightarrow>
          if t = [] then None
          else (case search_dates L (Some [''en'']) t of
                  None \<Rightarrow> None
                | Some dates \<Rightarrow>
                    map_option (\<lambda>d. d\<lparr>tzinfo := None\<rparr>)
                      (find (acceptable (datetime_now L)) (map snd dates))))
   \<and> (\<forall>d. extract_date_from_text L text = Some d \<longrightarrow>
          2000 \<le> year d \<and> date_le (date_of d) (date_of (datetime_now L)))
   \<and> (\<forall>t dates. text = Some t \<and> search_dates L (Some [''en'']) t = Some dates
          \<and> (\<forall>c \<in> set dates. \<not> acceptable (datetime_now L) (snd c))
        \<longrightarrow> extract_date_from_text L text = None)"
proof -
  have eq: "extract_date_from_text L text =
     (case text of
        None \<Rightarrow> None
      | Some t \<Rightarrow>
          if t = [] then None
          else (case search_dates L (Some [''en'']) t of
                  None \<Rightarrow> None
                | Some dates \<Rightarrow>
                    map_option (\<lambda>d. d\<lparr>tzinfo := None\<rparr>)
                      (find (acceptable (datetime_now L)) (map snd dates))))"
    by (simp add: extract_date_from_text_def candidate_loop_find split: option.splits)
  have ok: "2000 \<le> year d \<and> date_le (date_of d) (date_of (datetime_now L))"
    if "extract_date_from_text L text = Some d" for d
  proof -
    from that have "\<exists>dates. candidate_loop (datetime_now L) dates = Some d"
      by (auto simp: extract_date_from_text_def split: option.splits if_splits)
    then have "acceptable (datetime_now L) d"
      by (auto dest: candidate_loop_acceptable)
    then show ?thesis
      by (simp add: acceptable_def)
  qed
  have none: "extract_date_from_text L text = None"
    if "text = Some t" "search_dates L (Some [''en'']) t = Some dates"
       "\<forall>c \<in> set dates. \<not> acceptable (datetime_now L) (snd c)" for t dates
  proof -
    from that(3) have "find (acceptable (datetime_now L)) (map snd dates) = None"
      by (auto simp: find_None_iff)
    with that(1,2) eq show ?thesis by simp
  qed
  show ?thesis
  proof (intro conjI allI impI)
    show "extract_date_from_text L text =
     (case text of
        None \<Rightarrow> None
      | Some t \<Rightarrow>
          if t = [] then None
          else (case search_dates L (Some [''en'']) t of
                  None \<Rightarrow> None
                | Some dates \<Rightarrow>
                    map_option (\<lambda>d. d\<lparr>tzinfo := None\<rparr>)
                      (find (acceptable (datetime_now L)) (map snd dates))))"
      by (rule eq)
  next
    fix d assume "extract_date_from_text L text = Some d"
    then show "2000 \<le> year d" "date_le (date_of d) (date_of (datetime_now L))"
      using ok by simp_all
  next
    fix t dates
    assume "text = Some t \<and> search_dates L (Some [''en'']) t = Some dates
          \<and> (\<forall>c \<in> set dates. \<not> acceptable (datetime_now L) (snd c))"
    then show "extract_date_from_text L text = None"
      using none by simp
  qed
qed


theorem extract_date_from_text_first_acceptable_witness:
  "extract_date_from_text demo_libs (Some ''From 1999 to 2031 via 5 Nov 2023'')
     = Some (mk_date 2023 11 5)
   \<and> 2000 \<le> year (mk_date 2023 11 5)
   \<and> date_le (date_of (mk_date 2023 11 5)) (date_of (datetime_now demo_libs))
   \<and> search_dates demo_libs (Some [''en'']) ''Since 1999'' = Some [(''1999'', mk_date 1999 6 1)]
   \<and> \<not> acceptable (datetime_now demo_libs) (mk_date 1999 6 1)
   \<and> extract_date_from_text demo_libs (Some ''Since 1999'') = None"
proof -
  note th1 = extract_date_from_text_first_acceptable
               [of demo_libs "Some ''From 1999 to 2031 via 5 Nov 2023''"]
  note th2 = extract_date_from_text_first_acceptable [of demo_libs "Some ''Since 1999''"]
  have v: "extract_date_from_text demo_libs (Some ''From 1999 to 2031 via 5 Nov 2023'')
     = Some (mk_date 2023 11 5)"
    by code_simp
  have ok: "2000 \<le> year (mk_date 2023 11 5)
     \<and> date_le (date_of (mk_date 2023 11 5)) (date_of (datetime_now demo_libs))"
    by (rule th1 [THEN conjunct2, THEN conjunct1, THEN spec, THEN mp, OF v])
  have s: "search_dates demo_libs (Some [''en'']) ''Since 1999'' = Some [(''1999'', mk_date 1999 6 1)]"
    by (simp add: demo_libs_def demo_search_dates_def)
  have n: "\<not> acceptable (datetime_now demo_libs) (mk_date 1999 6 1)"
    by (simp add: acceptable_def mk_date_def)
  from n have all: "\<forall>c \<in> set [(''1999'', mk_date 1999 6 1)]. \<not> acceptable (datetime_now demo_libs) (snd c)"
    by simp
  have none: "extract_date_from_text demo_libs (Some ''Since 1999'') = None"
    by (rule th2 [THEN conjunct2, THEN conjunct2, THEN spec, THEN spec, THEN mp])
       (intro conjI, rule refl, rule s, rule all)
  show ?thesis
    by (intro conjI) (rule v, rule ok [THEN conjunct1], rule ok [THEN conjunct2], rule s, rule n, rule none)
qed

subsection \<open>The tracker\<close>

lemma tracker_step_unfold:
  "tracker_step L all_keywords leaders start_date end_date result st =
     (if date_rejected L start_date end_date result then st
      else if truthy (fst (fetch_full_text_and_summary L (hit_url result)))
              \<and> contains_keywords (fst (fetch_full_text_and_summary L (hit_url result))) all_keywords
      then st\<lparr>final_data := final_data st @
             [tracked_row L leaders (hit_title result) (hit_url result)
                (case fst (fetch_full_text_and_summary L (hit_url result)) of Some t \<Rightarrow> t | None \<Rightarrow> [])
                (fst (snd (fetch_full_text_and_summary L (hit_url result))))
                (snd (snd (fetch_full_text_and_summary L (hit_url result))))]\<rparr>
      else st\<lparr>failed_articles := failed_articles st @
             [failed_row (hit_title result) (hit_url result)
                (fst (snd (fetch_full_text_and_summary L (hit_url result))))
                (extract_date_from_url L (hit_url result))]\<rparr>)"
  by (simp add: tracker_step_def date_rejected_def Let_def)

lemma out_of_range_iff:
  "out_of_range start_date end_date dt =
     (\<exists>d. dt = Some d \<and> \<not> (date_le start_date (date_of d) \<and> date_le (date_of d) end_date))"
  by (cases dt) (simp_all add: out_of_range_def in_range_def)

lemma date_rejected_iff:
  "date_rejected L start_date end_date result =
     (\<exists>d. (extract_date_from_url L (hit_url result) = Some d
           \<or> fst (snd (fetch_full_text_and_summary L (hit_url result))) = Some d)
          \<and> \<not> (date_le start_date (date_of d) \<and> date_le (date_of d) end_date))"
  unfolding date_rejected_def out_of_range_iff by auto

lemma step_rows:
  "final_data (tracker_step L ak leaders s e r st) = final_data st
   \<and> failed_articles (tracker_step L ak leaders s e r st) = failed_articles st
   \<longleftrightarrow> date_rejected L s e r"
  by (simp add: tracker_step_unfold)

lemma step_count:
  "row_count (tracker_step L ak leaders s e r st) =
     row_count st + (if date_rejected L s e r then 0 else 1)"
  by (simp add: tracker_step_unfold row_count_def)

text \<open>
  Claim C1. For every search hit the tracker processes, the hit leaves both output tables
  as they were if and only if one of its two resolved dates (the one read from the URL,
  the one the fetcher returns) is present and its calendar date lies outside the
  inclusive range from \<open>start_date\<close> to \<open>end_date\<close>; and a hit whose two dates are both
  absent is never rejected: it adds one row.
\<close>

theorem date_filter_skips_iff:
  "((final_data (tracker_step L all_keywords leaders start_date end_date result st) = final_data st
     \<and> failed_articles (tracker_step L all_keywords leaders start_date end_date result st)
         = failed_articles st)
    \<longleftrightarrow> (\<exists>d. (extract_date_from_url L (hit_url result) = Some d
               \<or> fst (snd (fetch_full_text_and_summary L (hit_url result))) = Some d)
             \<and> \<not> (date_le start_date (date_of d) \<and> date_le (date_of d) end_date)))
   \<and> (extract_date_from_url L (hit_url result) = None
        \<and> fst (snd (fetch_full_text_and_summary L (hit_url result))) = None
      \<longrightarrow> row_count (tracker_step L all_keywords leaders start_date end_date result st)
            = row_count st + 1)"
proof (intro conjI impI)
  show "(final_data (tracker_step L all_keywords leaders start_date end_date result st) = final_data st
     \<and> failed_articles (tracker_step L all_keywords leaders start_date end_date result st)
         = failed_articles st)
    \<longleftrightarrow> (\<exists>d. (extract_date_from_url L (hit_url result) = Some d
               \<or> fst (snd (fetch_full_text_and_summary L (hit_url result))) = Some d)
             \<and> \<not> (date_le start_date (date_of d) \<and> date_le (date_of d) end_date))"
    unfolding step_rows by (rule date_rejected_iff)
next
  assume "extract_date_from_url L (hit_url result) = None
        \<and> fst (snd (fetch_full_text_and_summary L (hit_url result))) = None"
  then have "\<not> date_rejected L start_date end_date result"
    by (simp add: date_rejected_iff)
  then show "row_count (tracker_step L all_keywords leaders start_date end_date result st)
            = row_count st + 1"
    by (simp add: step_count)
qed

theorem date_filter_skips_iff_witness:
  "extract_date_from_url demo_libs url_b = Some (mk_date 2023 11 5)
   \<and> \<not> (date_le (2024, 1, 1) (date_of (mk_date 2023 11 5))
          \<and> date_le (date_of (mk_date 2023 11 5)) (2024, 12, 31))
   \<and> final_data (tracker_step demo_libs [''acme''] [] (2024, 1, 1) (2024, 12, 31)
          \<lparr>hit_title = ''Old story'', hit_url = url_b\<rparr> empty_state) = final_data empty_state
   \<and> failed_articles (tracker_step demo_libs [''acme''] [] (2024, 1, 1) (2024, 12, 31)
          \<lparr>hit_title = ''Old story'', hit_url = url_b\<rparr> empty_state) = failed_articles empty_state
   \<and> extract_date_from_url demo_libs url_c = None
   \<and> fst (snd (fetch_full_text_and_summary demo_libs url_c)) = None
   \<and> row_count (tracker_step demo_libs [''acme''] [] (2024, 1, 1) (2024, 12, 31)
          \<lparr>hit_title = ''Empty page'', hit_url = url_c\<rparr> empty_state) = row_count empty_state + 1"
proof -
  note thb = date_filter_skips_iff
    [of demo_libs "[''acme'']" "[]" "(2024, 1, 1)" "(2024, 12, 31)"
        "\<lparr>hit_title = ''Old story'', hit_url = url_b\<rparr>" empty_state]
  note thc = date_filter_skips_iff
    [of demo_libs "[''acme'']" "[]" "(2024, 1, 1)" "(2024, 12, 31)"
        "\<lparr>hit_title = ''Empty page'', hit_url = url_c\<rparr>" empty_state]
  have u: "extract_date_from_url demo_libs url_b = Some (mk_date 2023 11 5)"
    by code_simp
  have r: "\<not> (date_le (2024, 1, 1) (date_of (mk_date 2023 11 5))
          \<and> date_le (date_of (mk_date 2023 11 5)) (2024, 12, 31))"
    by (simp add: date_of_def mk_date_def)
  have ex: "\<exists>d. (extract_date_from_url demo_libs
                   (hit_url \<lparr>hit_title = ''Old story'', hit_url = url_b\<rparr>) = Some d
               \<or> fst (snd (fetch_full_text_and_summary demo_libs
                   (hit_url \<lparr>hit_title = ''Old story'', hit_url = url_b\<rparr>))) = Some d)
             \<and> \<not> (date_le (2024, 1, 1) (date_of d) \<and> date_le (date_of d) (2024, 12, 31))"
    by (rule exI [of _ "mk_date 2023 11 5"], rule conjI, rule disjI1, simp add: u, rule r)
  have sk: "final_data (tracker_step demo_libs [''acme''] [] (2024, 1, 1) (2024, 12, 31)
          \<lparr>hit_title = ''Old story'', hit_url = url_b\<rparr> empty_state) = final_data empty_state
   \<and> failed_articles (tracker_step demo_libs [''acme''] [] (2024, 1, 1) (2024, 12, 31)
          \<lparr>hit_title = ''Old story'', hit_url = url_b\<rparr> empty_state) = failed_articles empty_state"
    by (rule thb [THEN conjunct1, THEN iffD2, OF ex])
  have n1: "extract_date_from_url demo_libs url_c = None"
    by code_simp
  have n2: "fst (snd (fetch_full_text_and_summary demo_libs url_c)) = None"
    by code_simp
  have both: "extract_date_from_url demo_libs
                (hit_url \<lparr>hit_title = ''Empty page'', hit_url = url_c\<rparr>) = None
        \<and> fst (snd (fetch_full_text_and_summary demo_libs
                (hit_url \<lparr>hit_title = ''Empty page'', hit_url = url_c\<rparr>))) = None"
    by (simp add: n1 n2)
  have rc: "row_count (tracker_step demo_libs [''acme''] [] (2024, 1, 1) (2024, 12, 31)
          \<lparr>hit_title = ''Empty page'', hit_url = url_c\<rparr> empty_state) = row_count empty_state + 1"
    by (rule thc [THEN conjunct2, THEN mp, OF both])
  show ?thesis
    by (intro conjI) (rule u, rule r, rule sk [THEN conjunct1], rule sk [THEN conjunct2],
        rule n1, rule n2, rule rc)
qed

lemma foldl_hits_count:
  "row_count (foldl (\<lambda>st' r. tracker_step L ak leaders s e r st') st hits) =
     row_count st + length (filter (\<lambda>h. \<not> date_rejected L s e h) hits)"
  by (induction hits arbitrary: st) (simp_all add: step_count)

lemma foldl_keywords_count:
  "row_count (foldl (\<lambda>st keyword.
        foldl (\<lambda>st' r. tracker_step L ak leaders s e r st') st (search_urls_bing_news L keyword 5))
      st kws) =
     row_count st + length (filter (\<lambda>h. \<not> date_rejected L s e h) (hits_processed L kws))"
  by (induction kws arbitrary: st) (simp_all add: hits_processed_def foldl_hits_count)

lemma row_count_empty: "row_count \<lparr>final_data = [], failed_articles = []\<rparr> = 0"
  by (simp add: row_count_def)

lemma run_tracker_count:
  "row_count (run_tracker L kws leaders s e) =
     length (filter (\<lambda>h. \<not> date_rejected L s e h) (hits_processed L kws))"
  by (simp add: run_tracker_def Let_def foldl_keywords_count row_count_empty)

lemma step_one_row:
  "\<not> date_rejected L s e r \<Longrightarrow>
   (\<exists>row. final_data (tracker_step L ak leaders s e r st) = final_data st @ [row]
          \<and> failed_articles (tracker_step L ak leaders s e r st) = failed_articles st)
   \<or> (\<exists>row. final_data (tracker_step L ak leaders s e r st) = final_data st
          \<and> failed_articles (tracker_step L ak leaders s e r st) = failed_articles st @ [row])"
  by (simp add: tracker_step_unfold)

text \<open>
  Claim C10. In one run of the tracker, a hit the date-range filter rejects leaves the
  state as it was, and every other hit adds exactly one row: either one row to the
  matched table or one row to the failed table, never to both. So the two tables of a
  run hold together as many rows as there are hits the filter lets pass, which is at most
  the number of hits processed.
\<close>

theorem one_row_per_hit:
  assumes "st' = tracker_step L all_keywords leaders start_date end_date result st"
  shows "(date_rejected L start_date end_date result \<longrightarrow> st' = st)
   \<and> (\<not> date_rejected L start_date end_date result \<longrightarrow>
        ((\<exists>row. final_data st' = final_data st @ [row] \<and> failed_articles st' = failed_articles st)
         \<or> (\<exists>row. final_data st' = final_data st \<and> failed_articles st' = failed_articles st @ [row]))
        \<and> \<not> ((\<exists>row. final_data st' = final_data st @ [row])
              \<and> (\<exists>row. failed_articles st' = failed_articles st @ [row]))
        \<and> row_count st' = row_count st + 1)
   \<and> row_count (run_tracker L kws leaders start_date end_date)
        = length (filter (\<lambda>h. \<not> date_rejected L start_date end_date h) (hits_processed L kws))
   \<and> row_count (run_tracker L kws leaders start_date end_date)
        \<le> length (hits_processed L kws)"
proof (intro conjI impI)
  assume "date_rejected L start_date end_date result"
  then show "st' = st" by (simp add: assms tracker_step_unfold)
next
  assume nr: "\<not> date_rejected L start_date end_date result"
  show "(\<exists>row. final_data st' = final_data st @ [row] \<and> failed_articles st' = failed_articles st)
         \<or> (\<exists>row. final_data st' = final_data st \<and> failed_articles st' = failed_articles st @ [row])"
    unfolding assms by (rule step_one_row [OF nr])
  show "row_count st' = row_count st + 1"
    using nr by (simp add: assms step_count)
  then show "\<not> ((\<exists>row. final_data st' = final_data st @ [row])
              \<and> (\<exists>row. failed_articles st' = failed_articles st @ [row]))"
    by (auto simp: row_count_def)
next
  show "row_count (run_tracker L kws leaders start_date end_date)
        = length (filter (\<lambda>h. \<not> date_rejected L start_date end_date h) (hits_processed L kws))"
    by (rule run_tracker_count)
  then show "row_count (run_tracker L kws leaders start_date end_date)
        \<le> length (hits_processed L kws)"
    by simp
qed

theorem one_row_per_hit_witness:
  "\<not> date_rejected demo_libs (2024, 1, 1) (2024, 12, 31) \<lparr>hit_title = ''Acme and Jane'', hit_url = url_a\<rparr>
   \<and> row_count (tracker_step demo_libs [''acme''] [''Jane Doe''] (2024, 1, 1) (2024, 12, 31)
        \<lparr>hit_title = ''Acme and Jane'', hit_url = url_a\<rparr> empty_state) = row_count empty_state + 1
   \<and> date_rejected demo_libs (2024, 1, 1) (2024, 12, 31) \<lparr>hit_title = ''Old story'', hit_url = url_b\<rparr>
   \<and> tracker_step demo_libs [''acme''] [''Jane Doe''] (2024, 1, 1) (2024, 12, 31)
        \<lparr>hit_title = ''Old story'', hit_url = url_b\<rparr> empty_state = empty_state
   \<and> length (hits_processed demo_libs [''acme'']) = 3
   \<and> row_count (run_tracker demo_libs [''acme''] [''Jane Doe''] (2024, 1, 1) (2024, 12, 31)) \<le> 3"
proof -
  note tha = one_row_per_hit
    [OF refl, where L = demo_libs and start_date = "(2024, 1, 1)" and end_date = "(2024, 12, 31)"
        and result = "\<lparr>hit_title = ''Acme and Jane'', hit_url = url_a\<rparr>"
        and all_keywords = "[''acme'']" and leaders = "[''Jane Doe'']" and st = empty_state
        and kws = "[''acme'']"]
  note thb = one_row_per_hit
    [OF refl, where L = demo_libs and start_date = "(2024, 1, 1)" and end_date = "(2024, 12, 31)"
        and result = "\<lparr>hit_title = ''Old story'', hit_url = url_b\<rparr>"
        and all_keywords = "[''acme'']" and leaders = "[''Jane Doe'']" and st = empty_state
        and kws = "[''acme'']"]
  have a: "\<not> date_rejected demo_libs (2024, 1, 1) (2024, 12, 31)
             \<lparr>hit_title = ''Acme and Jane'', hit_url = url_a\<rparr>"
    by code_simp
  have b: "date_rejected demo_libs (2024, 1, 1) (2024, 12, 31)
             \<lparr>hit_title = ''Old story'', hit_url = url_b\<rparr>"
    by code_simp
  have n: "length (hits_processed demo_libs [''acme'']) = 3"
    by code_simp
  have le: "row_count (run_tracker demo_libs [''acme''] [''Jane Doe''] (2024, 1, 1) (2024, 12, 31))
              \<le> length (hits_processed demo_libs [''acme''])"
    by (rule tha [THEN conjunct2, THEN conjunct2, THEN conjunct2])
  show ?thesis
    by (intro conjI)
       (rule a,
        rule tha [THEN conjunct2, THEN conjunct1, THEN mp, OF a, THEN conjunct2, THEN conjunct2],
        rule b,
        rule thb [THEN conjunct1, THEN mp, OF b],
        rule n,
        rule le [unfolded n])
qed






subsection \<open>The search provider\<close>

declare search_loop.simps [simp del]

lemma item_loop_append: "item_loop (xs @ ys) st = item_loop ys (item_loop xs st)"
  by (induction xs st rule: item_loop.induct) (auto split: option.splits)

lemma linked_Nil: "linked [] = []"
  by (simp add: linked_def map_filter_simps)

lemma linked_Cons:
  "linked ((title, href) # items) =
     (case href of
        Some url \<Rightarrow> if url \<noteq> [] then (title, url) # linked items else linked items
      | None \<Rightarrow> linked items)"
  by (simp add: linked_def map_filter_simps split: option.splits)

lemma first_kept_snoc:
  "rev (remdups (rev (xs @ [x]))) =
     (if x \<in> set xs then rev (remdups (rev xs)) else rev (remdups (rev xs)) @ [x])"
  by simp

lemma find_snoc:
  "find Q (xs @ [x]) = (case find Q xs of Some y \<Rightarrow> Some y | None \<Rightarrow> if Q x then Some x else None)"
  by (induction xs) simp_all

lemma item_loop_inv:
  "seen = set (map snd P) \<Longrightarrow>
   map hit_url res = rev (remdups (rev (map snd P))) \<Longrightarrow>
   (\<forall>h \<in> set res. find (\<lambda>(t, u). u = hit_url h) P = Some (hit_title h, hit_url h)) \<Longrightarrow>
   fst (item_loop items (seen, res)) = set (map snd (P @ linked items))
   \<and> map hit_url (snd (item_loop items (seen, res)))
       = rev (remdups (rev (map snd (P @ linked items))))
   \<and> (\<forall>h \<in> set (snd (item_loop items (seen, res))).
         find (\<lambda>(t, u). u = hit_url h) (P @ linked items) = Some (hit_title h, hit_url h))"
proof (induction items arbitrary: P seen res)
  case Nil
  then show ?case by (simp add: linked_Nil)
next
  case (Cons item items)
  obtain title href where item: "item = (title, href)" by (cases item)
  show ?case
  proof (cases "\<exists>url. href = Some url \<and> url \<noteq> []")
    case False
    then have l: "linked (item # items) = linked items"
      by (auto simp: item linked_Cons split: option.splits)
    from False have s: "item_loop (item # items) (seen, res) = item_loop items (seen, res)"
      by (auto simp: item split: option.splits)
    show ?thesis
      unfolding l s using Cons.IH [OF Cons.prems] .
  next
    case True
    then obtain url where href: "href = Some url" and ne: "url \<noteq> []" by auto
    have l: "P @ linked (item # items) = (P @ [(title, url)]) @ linked items"
      by (simp add: item href ne linked_Cons)
    show ?thesis
    proof (cases "url \<in> seen")
      case True
      have s: "item_loop (item # items) (seen, res) = item_loop items (seen, res)"
        using True by (simp add: item href)
      have 1: "seen = set (map snd (P @ [(title, url)]))"
        using True Cons.prems(1) by auto
      have 2: "map hit_url res = rev (remdups (rev (map snd (P @ [(title, url)]))))"
        using True Cons.prems(1,2) by simp
      have 3: "\<forall>h \<in> set res. find (\<lambda>(t, u). u = hit_url h) (P @ [(title, url)])
                 = Some (hit_title h, hit_url h)"
        using Cons.prems(3) by (simp add: find_snoc)
      show ?thesis
        unfolding l s using Cons.IH [OF 1 2 3] .
    next
      case False
      have s: "item_loop (item # items) (seen, res) =
                 item_loop items (insert url seen, res @ [\<lparr>hit_title = title, hit_url = url\<rparr>])"
        using False ne by (simp add: item href)
      have 1: "insert url seen = set (map snd (P @ [(title, url)]))"
        using Cons.prems(1) by auto
      have 2: "map hit_url (res @ [\<lparr>hit_title = title, hit_url = url\<rparr>])
                 = rev (remdups (rev (map snd (P @ [(title, url)]))))"
        using False Cons.prems(1,2) by simp
      have nf: "find (\<lambda>(t, u). u = url) P = None"
        using False Cons.prems(1) by (force simp: find_None_iff)
      have 3: "\<forall>h \<in> set (res @ [\<lparr>hit_title = title, hit_url = url\<rparr>]).
                 find (\<lambda>(t, u). u = hit_url h) (P @ [(title, url)])
                 = Some (hit_title h, hit_url h)"
        using Cons.prems(3) nf by (auto simp: find_snoc)
      show ?thesis
        unfolding l s using Cons.IH [OF 1 2 3] .
    qed
  qed
qed

lemma search_loop_stop:
  "\<not> int page < mp \<or> page_stops L q page \<Longrightarrow> search_loop L q mp page seen res = res"
  by (subst search_loop.simps) (auto simp: page_stops_def split: sum.splits)

lemma search_loop_step:
  "int page < mp \<Longrightarrow> bing_page L q (page * 10) = Inr items \<Longrightarrow> items \<noteq> [] \<Longrightarrow>
   search_loop L q mp page seen res =
     search_loop L q mp (page + 1) (fst (item_loop items (seen, res)))
       (snd (item_loop items (seen, res)))"
  by (subst search_loop.simps) simp

lemma search_loop_pages:
  "page \<le> n \<Longrightarrow>
   (\<forall>p. page \<le> p \<and> p < n \<longrightarrow> int p < mp \<and> \<not> page_stops L q p) \<Longrightarrow>
   \<not> int n < mp \<or> page_stops L q n \<Longrightarrow>
   search_loop L q mp page seen res =
     snd (item_loop
            (concat (map (\<lambda>p. case bing_page L q (p * 10) of Inr items \<Rightarrow> items | Inl e \<Rightarrow> [])
                       [page..<n]))
            (seen, res))"
proof (induction L q mp page seen res rule: search_loop.induct)
  case (1 L q mp page seen res)
  show ?case
  proof (cases "page = n")
    case True
    with "1.prems"(3) show ?thesis
      by (simp add: search_loop_stop)
  next
    case False
    with "1.prems"(1) have lt: "page < n" by simp
    with "1.prems"(2) have go: "int page < mp" "\<not> page_stops L q page" by auto
    then obtain items where items: "bing_page L q (page * 10) = Inr items" "items \<noteq> []"
      by (auto simp: page_stops_def split: sum.splits)
    have rest: "\<forall>p. page + 1 \<le> p \<and> p < n \<longrightarrow> int p < mp \<and> \<not> page_stops L q p"
      using "1.prems"(2) by auto
    have ih: "search_loop L q mp (page + 1) (fst (item_loop items (seen, res)))
                (snd (item_loop items (seen, res))) =
              snd (item_loop
                (concat (map (\<lambda>p. case bing_page L q (p * 10) of Inr items \<Rightarrow> items | Inl e \<Rightarrow> [])
                           [page + 1..<n]))
                (fst (item_loop items (seen, res)), snd (item_loop items (seen, res))))"
      using lt by (intro "1.IH" [OF go(1) items] rest "1.prems"(3)) simp
    show ?thesis
      unfolding search_loop_step [OF go(1) items] ih
      using lt by (simp add: upt_conv_Cons items(1) item_loop_append)
  qed
qed

lemma stop_page_props:
  "(\<forall>p < stop_page L q mp. int p < mp \<and> \<not> page_stops L q p)
   \<and> (\<not> int (stop_page L q mp) < mp \<or> page_stops L q (stop_page L q mp))
   \<and> stop_page L q mp \<le> nat mp"
proof (cases "find (page_stops L q) [0..<nat mp]")
  case None
  then have "\<forall>p < nat mp. \<not> page_stops L q p"
    by (auto simp: find_None_iff)
  with None show ?thesis
    by (auto simp: stop_page_def)
next
  case (Some p0)
  then obtain i where "i < nat mp" "[0..<nat mp] ! i = p0" "page_stops L q p0"
      "\<forall>j < i. \<not> page_stops L q ([0..<nat mp] ! j)"
    by (auto simp: find_Some_iff)
  then have "p0 < nat mp" "page_stops L q p0" "\<forall>j < p0. \<not> page_stops L q j"
    by auto
  with Some show ?thesis
    by (auto simp: stop_page_def)
qed

lemma search_is_item_loop:
  "search_urls_bing_news L q mp =
     snd (item_loop (page_items L q (stop_page L q mp)) ({}, []))"
  unfolding search_urls_bing_news_def page_items_def
  using stop_page_props [of L q mp]
  by (intro search_loop_pages) auto

lemma search_inv:
  "map hit_url (search_urls_bing_news L q mp)
     = rev (remdups (rev (map snd (linked (page_items L q (stop_page L q mp))))))
   \<and> (\<forall>h \<in> set (search_urls_bing_news L q mp).
         find (\<lambda>(t, u). u = hit_url h) (linked (page_items L q (stop_page L q mp)))
           = Some (hit_title h, hit_url h))"
  using item_loop_inv [of "{}" "[]" "[]" "page_items L q (stop_page L q mp)"]
  by (simp add: search_is_item_loop)

text \<open>
  Claim C8. The hits one search call returns carry pairwise different URLs. Their URLs
  are those of the linked result elements of the pages read, in page-then-position order,
  each at its first occurrence only; and every hit returned is the first result element
  with its URL, title included.
\<close>

theorem search_hits_unique:
  "distinct (map hit_url (search_urls_bing_news L query max_pages))
   \<and> map hit_url (search_urls_bing_news L query max_pages)
       = rev (remdups (rev (map snd (linked (page_items L query (stop_page L query max_pages))))))
   \<and> (\<forall>h \<in> set (search_urls_bing_news L query max_pages).
         find (\<lambda>(t, u). u = hit_url h) (linked (page_items L query (stop_page L query max_pages)))
           = Some (hit_title h, hit_url h))"
proof (intro conjI)
  show u: "map hit_url (search_urls_bing_news L query max_pages)
       = rev (remdups (rev (map snd (linked (page_items L query (stop_page L query max_pages))))))"
    by (rule search_inv [THEN conjunct1])
  show "distinct (map hit_url (search_urls_bing_news L query max_pages))"
    unfolding u by simp
  show "\<forall>h \<in> set (search_urls_bing_news L query max_pages).
         find (\<lambda>(t, u). u = hit_url h) (linked (page_items L query (stop_page L query max_pages)))
           = Some (hit_title h, hit_url h)"
    by (rule search_inv [THEN conjunct2])
qed

theorem search_hits_unique_witness:
  "map snd (linked (page_items demo_libs ''acme'' (stop_page demo_libs ''acme'' 5)))
     = [url_a, url_b, url_a, url_c, url_b]
   \<and> map hit_url (search_urls_bing_news demo_libs ''acme'' 5) = [url_a, url_b, url_c]
   \<and> distinct [url_a, url_b, url_c]
   \<and> map hit_title (search_urls_bing_news demo_libs ''acme'' 5)
       = [''Acme and Jane'', ''Old story'', ''Empty page'']
   \<and> \<lparr>hit_title = ''Acme and Jane'', hit_url = url_a\<rparr>
       \<in> set (search_urls_bing_news demo_libs ''acme'' 5)
   \<and> find (\<lambda>(t, u). u = hit_url \<lparr>hit_title = ''Acme and Jane'', hit_url = url_a\<rparr>)
         (linked (page_items demo_libs ''acme'' (stop_page demo_libs ''acme'' 5)))
       = Some (hit_title \<lparr>hit_title = ''Acme and Jane'', hit_url = url_a\<rparr>,
               hit_url \<lparr>hit_title = ''Acme and Jane'', hit_url = url_a\<rparr>)"
proof -
  note th = search_hits_unique [of demo_libs "''acme''" 5]
  have mem: "\<lparr>hit_title = ''Acme and Jane'', hit_url = url_a\<rparr>
       \<in> set (search_urls_bing_news demo_libs ''acme'' 5)"
    by code_simp
  have x: "map snd (linked (page_items demo_libs ''acme'' (stop_page demo_libs ''acme'' 5)))
     = [url_a, url_b, url_a, url_c, url_b]"
    by code_simp
  have r: "map hit_url (search_urls_bing_news demo_libs ''acme'' 5) = [url_a, url_b, url_c]"
    by code_simp
  have t: "map hit_title (search_urls_bing_news demo_libs ''acme'' 5)
       = [''Acme and Jane'', ''Old story'', ''Empty page'']"
    by code_simp
  show ?thesis
    by (intro conjI)
       (rule x, rule r, rule th [THEN conjunct1, unfolded r], rule t, rule mem,
        rule th [THEN conjunct2, THEN conjunct2, THEN bspec, OF mem])
qed

text \<open>
  Claim C9. The search returns a list on every input: the loop is a total function, and
  an exception of a page request is a value its handler turns into the end of the loop.
  What it returns are the hits accumulated over the pages before \<open>stop_page\<close>; every
  page before that one was fetched and had result elements; and \<open>stop_page\<close> is the page
  bound, or a page whose request raised, or a page with no result elements. At any
  state of the loop, a page index at the bound, a failing request and an empty page each
  make it return the hits accumulated so far.
\<close>

theorem pagination_stops:
  "search_urls_bing_news L query max_pages
     = snd (item_loop (page_items L query (stop_page L query max_pages)) ({}, []))
   \<and> int (stop_page L query max_pages) \<le> max 0 max_pages
   \<and> (\<forall>p < stop_page L query max_pages.
         \<exists>items. bing_page L query (p * 10) = Inr items \<and> items \<noteq> [])
   \<and> (int (stop_page L query max_pages) = max 0 max_pages
       \<or> (\<exists>e. bing_page L query (stop_page L query max_pages * 10) = Inl e)
       \<or> bing_page L query (stop_page L query max_pages * 10) = Inr [])
   \<and> (\<not> int page < max_pages \<longrightarrow>
         search_loop L query max_pages page seen_urls all_results = all_results)
   \<and> ((\<exists>e. bing_page L query (page * 10) = Inl e) \<longrightarrow>
         search_loop L query max_pages page seen_urls all_results = all_results)
   \<and> (bing_page L query (page * 10) = Inr [] \<longrightarrow>
         search_loop L query max_pages page seen_urls all_results = all_results)"
proof (intro conjI impI allI)
  note sp = stop_page_props [of L query max_pages]
  show "search_urls_bing_news L query max_pages
     = snd (item_loop (page_items L query (stop_page L query max_pages)) ({}, []))"
    by (rule search_is_item_loop)
  show "int (stop_page L query max_pages) \<le> max 0 max_pages"
    using sp by auto
  show "\<exists>items. bing_page L query (p * 10) = Inr items \<and> items \<noteq> []"
    if "p < stop_page L query max_pages" for p
  proof -
    from sp that have "\<not> page_stops L query p" by simp
    then show ?thesis
      by (cases "bing_page L query (p * 10)") (simp_all add: page_stops_def)
  qed
  show "int (stop_page L query max_pages) = max 0 max_pages
       \<or> (\<exists>e. bing_page L query (stop_page L query max_pages * 10) = Inl e)
       \<or> bing_page L query (stop_page L query max_pages * 10) = Inr []"
    using sp by (auto simp: page_stops_def split: sum.splits)
next
  assume "\<not> int page < max_pages"
  then show "search_loop L query max_pages page seen_urls all_results = all_results"
    by (simp add: search_loop_stop)
next
  assume "\<exists>e. bing_page L query (page * 10) = Inl e"
  then have "page_stops L query page" by (auto simp: page_stops_def)
  then show "search_loop L query max_pages page seen_urls all_results = all_results"
    by (simp add: search_loop_stop)
next
  assume "bing_page L query (page * 10) = Inr []"
  then have "page_stops L query page" by (simp add: page_stops_def)
  then show "search_loop L query max_pages page seen_urls all_results = all_results"
    by (simp add: search_loop_stop)
qed

theorem pagination_stops_witness:
  "stop_page demo_libs ''acme'' 5 = 2
   \<and> bing_page demo_libs ''acme'' (2 * 10) = Inr []
   \<and> search_loop demo_libs ''acme'' 5 2 {url_a} [\<lparr>hit_title = ''Acme and Jane'', hit_url = url_a\<rparr>]
       = [\<lparr>hit_title = ''Acme and Jane'', hit_url = url_a\<rparr>]
   \<and> bing_page demo_libs ''other'' (0 * 10) = Inl RequestError
   \<and> search_loop demo_libs ''other'' 5 0 {} [] = []
   \<and> \<not> int 1 < 1
   \<and> search_loop demo_libs ''acme'' 1 1 {} [] = []
   \<and> search_urls_bing_news demo_libs ''acme'' 5
       = snd (item_loop (page_items demo_libs ''acme'' 2) ({}, []))"
proof -
  have n: "stop_page demo_libs ''acme'' 5 = 2"
    by code_simp
  have e: "bing_page demo_libs ''acme'' (2 * 10) = Inr []"
    by (simp add: demo_libs_def demo_bing_def)
  have x: "bing_page demo_libs ''other'' (0 * 10) = Inl RequestError"
    by (simp add: demo_libs_def demo_bing_def)
  have ex: "\<exists>e. bing_page demo_libs ''other'' (0 * 10) = Inl e"
    by (rule exI [of _ RequestError], rule x)
  have b: "\<not> int 1 < 1" by simp
  show ?thesis
    by (intro conjI)
       (rule n, rule e,
        rule pagination_stops [where L = demo_libs and query = "''acme''" and max_pages = 5
            and page = 2, THEN conjunct2, THEN conjunct2, THEN conjunct2, THEN conjunct2,
            THEN conjunct2, THEN conjunct2, THEN mp, OF e],
        rule x,
        rule pagination_stops [where L = demo_libs and query = "''other''" and max_pages = 5
            and page = 0, THEN conjunct2, THEN conjunct2, THEN conjunct2, THEN conjunct2,
            THEN conjunct2, THEN conjunct1, THEN mp, OF ex],
        rule b,
        rule pagination_stops [where L = demo_libs and query = "''acme''" and max_pages = 1
            and page = 1, THEN conjunct2, THEN conjunct2, THEN conjunct2, THEN conjunct2,
            THEN conjunct1, THEN mp, OF b],
        rule pagination_stops [where L = demo_libs and query = "''acme''" and max_pages = 5,
            THEN conjunct1, unfolded n])
qed

subsection \<open>Date from the document metadata\<close>

lemma meta_loop_find:
  "meta_loop L tags props =
     (case find (\<lambda>v. v \<noteq> [] \<and> dateparser_parse L v \<noteq> None)
             (List.map_filter
                (\<lambda>prop. case find_meta tags prop of Some tag \<Rightarrow> map_of tag ''content''
                                                    | None \<Rightarrow> None) props) of
        Some v \<Rightarrow> map_option (\<lambda>d. d\<lparr>tzinfo := None\<rparr>) (dateparser_parse L v)
      | None \<Rightarrow> None)"
  by (induction props)
     (auto simp: map_filter_simps make_naive_Some split: option.splits)

text \<open>
  Claim C6, as the code has it. For every document, \<open>extract_date_from_meta\<close> scans the
  metadata values in the fixed order of the property names and returns the date parsed
  from the first value that is non-empty and that the date parser can parse, with its time
  zone dropped and every wall-clock field kept; so a returned date is naive; and when no
  non-empty value is found the result is absent.
\<close>

theorem extract_date_from_meta_first_parsed:
  "extract_date_from_meta L html =
     (case find (\<lambda>v. v \<noteq> [] \<and> dateparser_parse L v \<noteq> None) (meta_values (soup_meta L html)) of
        Some v \<Rightarrow> map_option (\<lambda>d. d\<lparr>tzinfo := None\<rparr>) (dateparser_parse L v)
      | None \<Rightarrow> None)
   \<and> (\<forall>d. extract_date_from_meta L html = Some d \<longrightarrow> tzinfo d = None)
   \<and> ((\<forall>v \<in> set (meta_values (soup_meta L html)). v = []) \<longrightarrow>
        extract_date_from_meta L html = None)"
proof -
  have eq: "extract_date_from_meta L html =
     (case find (\<lambda>v. v \<noteq> [] \<and> dateparser_parse L v \<noteq> None) (meta_values (soup_meta L html)) of
        Some v \<Rightarrow> map_option (\<lambda>d. d\<lparr>tzinfo := None\<rparr>) (dateparser_parse L v)
      | None \<Rightarrow> None)"
    by (simp add: extract_date_from_meta_def meta_values_def meta_loop_find)
  have tz: "tzinfo d = None" if "extract_date_from_meta L html = Some d" for d
    using that unfolding eq by (auto split: option.splits)
  have none: "extract_date_from_meta L html = None"
    if "\<forall>v \<in> set (meta_values (soup_meta L html)). v = []"
  proof -
    from that have "find (\<lambda>v. v \<noteq> [] \<and> dateparser_parse L v \<noteq> None)
                      (meta_values (soup_meta L html)) = None"
      by (auto simp: find_None_iff)
    then show ?thesis unfolding eq by simp
  qed
  show ?thesis
  proof (intro conjI allI impI)
    show "extract_date_from_meta L html =
     (case find (\<lambda>v. v \<noteq> [] \<and> dateparser_parse L v \<noteq> None) (meta_values (soup_meta L html)) of
        Some v \<Rightarrow> map_option (\<lambda>d. d\<lparr>tzinfo := None\<rparr>) (dateparser_parse L v)
      | None \<Rightarrow> None)"
      by (rule eq)
  next
    fix d assume "extract_date_from_meta L html = Some d"
    then show "tzinfo d = None" by (rule tz)
  next
    assume "\<forall>v \<in> set (meta_values (soup_meta L html)). v = []"
    then show "extract_date_from_meta L html = None" by (rule none)
  qed
qed

theorem extract_date_from_meta_first_parsed_witness:
  "dateparser_parse demo_libs ''2024-02-10T10:00:00+05:30''
     = Some ((mk_date 2024 2 10)\<lparr>hour := 10, tzinfo := Some 330\<rparr>)
   \<and> extract_date_from_meta demo_libs ''<html>d</html>''
       = Some ((mk_date 2024 2 10)\<lparr>hour := 10\<rparr>)
   \<and> tzinfo ((mk_date 2024 2 10)\<lparr>hour := 10\<rparr>) = None
   \<and> meta_values (soup_meta demo_libs ''<html>a</html>'') = []
   \<and> extract_date_from_meta demo_libs ''<html>a</html>'' = None"
proof -
  note thd = extract_date_from_meta_first_parsed [of demo_libs "''<html>d</html>''"]
  note tha = extract_date_from_meta_first_parsed [of demo_libs "''<html>a</html>''"]
  have p: "dateparser_parse demo_libs ''2024-02-10T10:00:00+05:30''
     = Some ((mk_date 2024 2 10)\<lparr>hour := 10, tzinfo := Some 330\<rparr>)"
    by code_simp
  have r: "extract_date_from_meta demo_libs ''<html>d</html>''
       = Some ((mk_date 2024 2 10)\<lparr>hour := 10\<rparr>)"
    by code_simp
  have m: "meta_values (soup_meta demo_libs ''<html>a</html>'') = []"
    by code_simp
  have all: "\<forall>v \<in> set (meta_values (soup_meta demo_libs ''<html>a</html>'')). v = []"
    unfolding m by simp
  show ?thesis
    by (intro conjI)
       (rule p, rule r,
        rule thd [THEN conjunct2, THEN conjunct1, THEN spec, THEN mp, OF r],
        rule m,
        rule tha [THEN conjunct2, THEN conjunct2, THEN mp, OF all])
qed

text \<open>
  Read as "parse the first non-empty value found", the claim gives no date for a document
  whose first non-empty value does not parse; the loop goes on to the next property name
  and returns the date of a later value.
\<close>

theorem first_nonempty_meta_counterexample:
  "meta_values (soup_meta demo_libs ''<html>d</html>'')
     = [''soon'', ''2024-02-10T10:00:00+05:30'', ''2024-02-10T10:00:00+05:30'']
   \<and> dateparser_parse demo_libs ''soon'' = None
   \<and> first_nonempty_meta_date demo_libs ''<html>d</html>'' = None
   \<and> extract_date_from_meta demo_libs ''<html>d</html>''
       = Some ((mk_date 2024 2 10)\<lparr>hour := 10\<rparr>)"
proof (intro conjI)
  show "meta_values (soup_meta demo_libs ''<html>d</html>'')
     = [''soon'', ''2024-02-10T10:00:00+05:30'', ''2024-02-10T10:00:00+05:30'']"
    by code_simp
  show "dateparser_parse demo_libs ''soon'' = None"
    by code_simp
  show "first_nonempty_meta_date demo_libs ''<html>d</html>'' = None"
    by code_simp
  show "extract_date_from_meta demo_libs ''<html>d</html>''
       = Some ((mk_date 2024 2 10)\<lparr>hour := 10\<rparr>)"
    by code_simp
qed

subsection \<open>The article fetcher\<close>

lemma first_present_chain:
  "first_present [a, b, c, d] =
     (case a of Some x \<Rightarrow> Some x | None \<Rightarrow>
        (case b of Some x \<Rightarrow> Some x | None \<Rightarrow>
           (case c of Some x \<Rightarrow> Some x | None \<Rightarrow> d)))"
  by (cases a; cases b; cases c; cases d) simp_all

lemma extract_date_from_text_falsy:
  "\<not> truthy text \<Longrightarrow> extract_date_from_text L text = None"
  by (auto simp: truthy_def extract_date_from_text_def split: option.splits)

lemma fetch_date_chain:
  "retrieve L url = Some (Some text, pub_date0, summary, Some html) \<Longrightarrow>
   fst (snd (fetch_full_text_and_summary L url)) =
     first_present
       [pub_date0,
        (if html = [] then None else extract_date_from_meta L html),
        extract_date_from_text L (Some text),
        extract_date_from_url L url]"
  by (cases "truthy (Some text)")
     (auto simp: fetch_full_text_and_summary_def Let_def first_present_chain truthy_def
        extract_date_from_text_falsy split: option.splits)

text \<open>
  Claim C3, as the code has it. For every URL on which the primary extraction or the
  fallback request succeeds, the publish date the fetcher returns is the first present
  result of the chain: the publish date of the primary extraction (absent on the fallback
  path), then the metadata date of the retrieved HTML (not tried on an empty document),
  then the free-text date of the extracted body text, then the date read from the URL.
  When both retrievals fail, the fetcher returns no text, no date and no summary, and
  tries no strategy.
\<close>

theorem fetch_date_priority:
  "(newspaper_Article L url = Inr a \<longrightarrow>
      fst (snd (fetch_full_text_and_summary L url)) =
        first_present
          [make_naive (art_publish_date a),
           (if art_html a = [] then None else extract_date_from_meta L (art_html a)),
           extract_date_from_text L (Some (strip (art_text a))),
           extract_date_from_url L url])
   \<and> (newspaper_Article L url = Inl e \<and> requests_get L url = Inr html \<longrightarrow>
      fst (snd (fetch_full_text_and_summary L url)) =
        first_present
          [None,
           (if html = [] then None else extract_date_from_meta L html),
           extract_date_from_text L
             (Some (join [CHR 0x0A] (filter (\<lambda>t. t \<noteq> []) (soup_p_texts L html)))),
           extract_date_from_url L url])
   \<and> (newspaper_Article L url = Inl e \<and> requests_get L url = Inl e' \<longrightarrow>
      fetch_full_text_and_summary L url = (None, None, None))"
proof (intro conjI impI)
  assume "newspaper_Article L url = Inr a"
  then have "retrieve L url =
      Some (Some (strip (art_text a)), make_naive (art_publish_date a),
            Some (art_summary a), Some (art_html a))"
    by (simp add: retrieve_def)
  then show "fst (snd (fetch_full_text_and_summary L url)) =
        first_present
          [make_naive (art_publish_date a),
           (if art_html a = [] then None else extract_date_from_meta L (art_html a)),
           extract_date_from_text L (Some (strip (art_text a))),
           extract_date_from_url L url]"
    by (rule fetch_date_chain)
next
  assume "newspaper_Article L url = Inl e \<and> requests_get L url = Inr html"
  then have "retrieve L url =
      Some (Some (join [CHR 0x0A] (filter (\<lambda>t. t \<noteq> []) (soup_p_texts L html))),
            None, None, Some html)"
    by (simp add: retrieve_def)
  then show "fst (snd (fetch_full_text_and_summary L url)) =
        first_present
          [None,
           (if html = [] then None else extract_date_from_meta L html),
           extract_date_from_text L
             (Some (join [CHR 0x0A] (filter (\<lambda>t. t \<noteq> []) (soup_p_texts L html)))),
           extract_date_from_url L url]"
    by (rule fetch_date_chain)
next
  assume "newspaper_Article L url = Inl e \<and> requests_get L url = Inl e'"
  then show "fetch_full_text_and_summary L url = (None, None, None)"
    by (simp add: fetch_full_text_and_summary_def retrieve_def)
qed

theorem fetch_date_priority_witness:
  "newspaper_Article demo_libs url_a = Inr article_a
   \<and> fst (snd (fetch_full_text_and_summary demo_libs url_a)) =
        first_present
          [make_naive (art_publish_date article_a),
           (if art_html article_a = [] then None
            else extract_date_from_meta demo_libs (art_html article_a)),
           extract_date_from_text demo_libs (Some (strip (art_text article_a))),
           extract_date_from_url demo_libs url_a]
   \<and> fst (snd (fetch_full_text_and_summary demo_libs url_a)) = Some (mk_date 2024 3 1)
   \<and> newspaper_Article demo_libs url_d = Inl RequestError
   \<and> requests_get demo_libs url_d = Inr ''<html>d</html>''
   \<and> fst (snd (fetch_full_text_and_summary demo_libs url_d)) =
        first_present
          [None,
           (if ''<html>d</html>'' = [] then None
            else extract_date_from_meta demo_libs ''<html>d</html>''),
           extract_date_from_text demo_libs
             (Some (join [CHR 0x0A] (filter (\<lambda>t. t \<noteq> []) (soup_p_texts demo_libs ''<html>d</html>'')))),
           extract_date_from_url demo_libs url_d]
   \<and> fst (snd (fetch_full_text_and_summary demo_libs url_d)) = Some ((mk_date 2024 2 10)\<lparr>hour := 10\<rparr>)
   \<and> newspaper_Article demo_libs url_b = Inl RequestError
   \<and> requests_get demo_libs url_b = Inl RequestError
   \<and> fetch_full_text_and_summary demo_libs url_b = (None, None, None)"
proof -
  have n: "newspaper_Article demo_libs url_d = Inl RequestError"
    by code_simp
  have g: "requests_get demo_libs url_d = Inr ''<html>d</html>''"
    by code_simp
  have v: "fst (snd (fetch_full_text_and_summary demo_libs url_d))
             = Some ((mk_date 2024 2 10)\<lparr>hour := 10\<rparr>)"
    by code_simp
  have nb: "newspaper_Article demo_libs url_b = Inl RequestError"
    by code_simp
  have gb: "requests_get demo_libs url_b = Inl RequestError"
    by code_simp
  have na: "newspaper_Article demo_libs url_a = Inr article_a"
    by code_simp
  have va: "fst (snd (fetch_full_text_and_summary demo_libs url_a)) = Some (mk_date 2024 3 1)"
    by code_simp
  show ?thesis
    by (intro conjI)
       (rule na,
        rule fetch_date_priority [where L = demo_libs and url = url_a and a = article_a,
            THEN conjunct1, THEN mp, OF na],
        rule va, rule n, rule g,
        rule fetch_date_priority [where L = demo_libs and url = url_d and e = RequestError
            and html = "''<html>d</html>''", THEN conjunct2, THEN conjunct1, THEN mp,
            OF conjI [OF n g]],
        rule v, rule nb, rule gb,
        rule fetch_date_priority [where L = demo_libs and url = url_b and e = RequestError
            and e' = RequestError, THEN conjunct2, THEN conjunct2, THEN mp,
            OF conjI [OF nb gb]])
qed

text \<open>
  On a URL that carries a date and on which both retrievals fail, the chain has a present
  result (the date read from the URL), and the fetcher returns no date.
\<close>

theorem fetch_total_failure_counterexample:
  "newspaper_Article demo_libs url_b = Inl RequestError
   \<and> requests_get demo_libs url_b = Inl RequestError
   \<and> extract_date_from_url demo_libs url_b = Some (mk_date 2023 11 5)
   \<and> first_present [None, None, None, extract_date_from_url demo_libs url_b]
       = Some (mk_date 2023 11 5)
   \<and> fst (snd (fetch_full_text_and_summary demo_libs url_b)) = None"
proof (intro conjI)
  show "newspaper_Article demo_libs url_b = Inl RequestError"
    by code_simp
  show "requests_get demo_libs url_b = Inl RequestError"
    by code_simp
  show "extract_date_from_url demo_libs url_b = Some (mk_date 2023 11 5)"
    by code_simp
  show "first_present [None, None, None, extract_date_from_url demo_libs url_b]
       = Some (mk_date 2023 11 5)"
    by code_simp
  show "fst (snd (fetch_full_text_and_summary demo_libs url_b)) = None"
    by code_simp
qed

subsection \<open>Date from the URL\<close>

text \<open>
  Wherever fourteen digits stand, eight digits stand at the same position, and the
  eight-digit alternative is tried first: the third group never takes part in a match,
  the matched value has ten or eight characters, and \<^verbatim>\<open>strptime\<close> is never called.
\<close>

lemma digits_take: "digits (take 14 s) \<Longrightarrow> digits (take 8 s)"
proof -
  assume "digits (take 14 s)"
  then have "list_all is_digit (take 8 (take 14 s))"
    unfolding digits_def list_all_iff by (meson in_set_takeD)
  then show ?thesis by (simp add: digits_def)
qed

lemma match_at_groups:
  "match_at s = Some m \<Longrightarrow>
   group3 m = None
   \<and> ((\<exists>v. group1 m = Some v \<and> length v = 10) \<or> (\<exists>v. group1 m = None \<and> group2 m = Some v \<and> length v = 8))"
  by (auto simp: match_at_def alt_dashed_def alt_digits_def dest: digits_take
           split: option.splits if_splits)

lemma re_search_groups:
  "re_search url = Some m \<Longrightarrow>
   group3 m = None
   \<and> ((\<exists>v. group1 m = Some v \<and> length v = 10) \<or> (\<exists>v. group1 m = None \<and> group2 m = Some v \<and> length v = 8))"
  by (induction url) (auto dest: match_at_groups split: option.splits)

lemma extract_date_from_url_never_strptime:
  "extract_date_from_url L url =
     (case re_search url of
        Some m \<Rightarrow>
          (case py_or (group1 m) (group2 m) of
             Some val \<Rightarrow> make_naive (dateparser_parse L val)
           | None \<Rightarrow> None)
      | None \<Rightarrow> None)"
proof (cases "re_search url")
  case None
  then show ?thesis by (simp add: extract_date_from_url_def)
next
  case (Some m)
  from re_search_groups [OF Some] show ?thesis
    by (auto simp: extract_date_from_url_def Some py_or_def truthy_def)
qed

text \<open>
  Claim C4. On a URL with the 14-digit run \<open>20231105143000\<close> the function returns what
  the date parser makes of the first eight digits, \<open>20231105\<close>; it returns the same for the
  run \<open>20231105235959\<close>, so the six digits of the time never reach the result. The
  \<^verbatim>\<open>strptime\<close> call of the source would read the run as 2023-11-05 14:30:00.
\<close>

theorem url_14_digits_parsed_as_8:
  "extract_date_from_url L ''https://site.example/archive/20231105143000/story''
     = make_naive (dateparser_parse L ''20231105'')
   \<and> extract_date_from_url L ''https://site.example/archive/20231105235959/story''
     = make_naive (dateparser_parse L ''20231105'')
   \<and> strptime_YmdHMS ''20231105143000''
     = Inr ((mk_date 2023 11 5)\<lparr>hour := 14, minute := 30\<rparr>)"
proof (intro conjI)
  have 1: "re_search ''https://site.example/archive/20231105143000/story''
             = Some \<lparr>group1 = None, group2 = Some ''20231105'', group3 = None\<rparr>"
    by code_simp
  have 2: "re_search ''https://site.example/archive/20231105235959/story''
             = Some \<lparr>group1 = None, group2 = Some ''20231105'', group3 = None\<rparr>"
    by code_simp
  show "extract_date_from_url L ''https://site.example/archive/20231105143000/story''
     = make_naive (dateparser_parse L ''20231105'')"
    by (simp only: extract_date_from_url_def 1) (simp add: py_or_def truthy_def)
  show "extract_date_from_url L ''https://site.example/archive/20231105235959/story''
     = make_naive (dateparser_parse L ''20231105'')"
    by (simp only: extract_date_from_url_def 2) (simp add: py_or_def truthy_def)
  show "strptime_YmdHMS ''20231105143000''
     = Inr ((mk_date 2023 11 5)\<lparr>hour := 14, minute := 30\<rparr>)"
    by code_simp
qed

end
